theory Spec2Isabelle
  imports Main "HOL-Library.Multiset"
begin

section \<open>The photo gallery and its lightbox viewer (script.js)\<close>

text \<open>
  The script keeps four module-level variables (\<open>photos\<close>, \<open>currentIndex\<close>,
  \<open>touchStartX\<close>, \<open>touchEndX\<close>) and writes to a handful of DOM elements. The model is
  one record holding the variables and every DOM property the script assigns, and one
  HOL function per JavaScript function, taking the state and returning the updated one.
  Numbers that the script uses as indices and pixel positions are \<open>int\<close>
  (\<open>currentIndex\<close> is \<open>-1\<close> while the viewer is closed). Two properties of a
  thumbnail are presentation only and are left out of the thumbnail model: the
  \<open>--aspect\<close> style property (a floating-point quotient printed with four decimals)
  and the class \<open>loaded\<close> that its image receives when it has loaded.
\<close>

subsection \<open>Data\<close>

record photo =
  filename :: string
  width :: int
  height :: int
  dateCaptured :: string

text \<open>
  What the built-in \<open>new Date(string)\<close> yields: \<open>None\<close> is an Invalid Date (every
  accessor returns NaN), otherwise the time value in milliseconds and the local calendar
  fields. The parser belongs to the JavaScript runtime, so it is a parameter of every
  function that formats or compares dates.
\<close>

record jsdate =
  getTime :: int
  getMonth :: nat
  getDate :: nat
  getFullYear :: int

type_synonym date_api = "string \<Rightarrow> jsdate option"

datatype gallery_child =
    EmptyStateDiv string
  | GalleryItem (item_index: nat) (item_src: string) (item_label: string)

record state =
  photos :: "photo list"
  currentIndex :: int
  touchStartX :: int
  touchEndX :: int
  gallery :: "gallery_child list"
  loading_hidden :: bool
  lightbox_hidden :: bool
  body_overflow :: string
  image_src :: string
  image_alt :: string
  image_loaded :: bool
  image_onload :: bool
  caption :: string
  prev_visibility :: string
  next_visibility :: string
  preloaded :: "string list"
  console :: "string list"

text \<open>
  \<open>preloaded\<close> is the log of the resources for which \<open>preloadAdjacent\<close> created an
  \<open>Image\<close> and set its \<open>src\<close> (each one starts a fetch); \<open>image_loaded\<close> is the presence
  of the class \<open>loaded\<close> on the viewer image, \<open>image_onload\<close> whether its load handler is
  installed.
\<close>

subsection \<open>formatDate\<close>

fun showNat :: "nat \<Rightarrow> string" where
  "showNat n =
     (if n < 10 then [''0123456789'' ! n]
      else showNat (n div 10) @ [''0123456789'' ! (n mod 10)])"

declare showNat.simps [simp del]

definition showInt :: "int \<Rightarrow> string" where
  "showInt y = (if y < 0 then ''-'' @ showNat (nat (- y)) else showNat (nat y))"

definition padStart2 :: "string \<Rightarrow> string" where
  "padStart2 str = replicate (2 - length str) CHR ''0'' @ str"

definition formatDate :: "date_api \<Rightarrow> string \<Rightarrow> string" where
  "formatDate D dateString =
     (case D dateString of
        None \<Rightarrow> ''NaN/NaN/NaN''
      | Some date \<Rightarrow>
          padStart2 (showNat (getMonth date + 1)) @ ''/'' @
          padStart2 (showNat (getDate date)) @ ''/'' @
          showInt (getFullYear date))"

subsection \<open>Rendering the gallery\<close>

definition createGalleryItem :: "date_api \<Rightarrow> photo \<Rightarrow> nat \<Rightarrow> gallery_child" where
  "createGalleryItem D p index =
     GalleryItem index (''images/thumbs/'' @ filename p)
       (''Photo from '' @ formatDate D (dateCaptured p))"

definition renderGallery :: "date_api \<Rightarrow> state \<Rightarrow> state" where
  "renderGallery D s =
     (if length (photos s) = 0 then s\<lparr>gallery := [EmptyStateDiv ''No photos yet'']\<rparr>
      else s\<lparr>gallery :=
                map (\<lambda>(index, p). createGalleryItem D p index) (enumerate 0 (photos s))\<rparr>)"

subsection \<open>The lightbox\<close>

definition updateLightboxContent :: "date_api \<Rightarrow> state \<Rightarrow> state" where
  "updateLightboxContent D s =
     (if 0 \<le> currentIndex s \<and> currentIndex s < int (length (photos s)) then
        (let p = photos s ! nat (currentIndex s) in
         s\<lparr>image_loaded := False,
           image_src := ''images/full/'' @ filename p,
           image_alt := ''Photo from '' @ formatDate D (dateCaptured p),
           caption := formatDate D (dateCaptured p),
           image_onload := True,
           prev_visibility := (if currentIndex s > 0 then ''visible'' else ''hidden''),
           next_visibility :=
             (if currentIndex s < int (length (photos s)) - 1 then ''visible''
              else ''hidden'')\<rparr>)
      else s)"

text \<open>
  \<open>photos[currentIndex]\<close> is \<open>undefined\<close> for an index outside the array (also for
  \<open>-1\<close>), and the function returns at once: the \<open>else\<close> branch.
\<close>

definition preloadIndexes :: "state \<Rightarrow> int list" where
  "preloadIndexes s = [currentIndex s - 1, currentIndex s + 1]"

definition preloadTargets :: "state \<Rightarrow> int list" where
  "preloadTargets s =
     filter (\<lambda>index. index \<ge> 0 \<and> index < int (length (photos s))) (preloadIndexes s)"

definition fullUrl :: "state \<Rightarrow> int \<Rightarrow> string" where
  "fullUrl s index = ''images/full/'' @ filename (photos s ! nat index)"

definition preloadAdjacent :: "state \<Rightarrow> state" where
  "preloadAdjacent s = s\<lparr>preloaded := preloaded s @ map (fullUrl s) (preloadTargets s)\<rparr>"

definition openLightbox :: "date_api \<Rightarrow> state \<Rightarrow> int \<Rightarrow> state" where
  "openLightbox D s index =
     preloadAdjacent
       ((updateLightboxContent D (s\<lparr>currentIndex := index\<rparr>))
          \<lparr>lightbox_hidden := False, body_overflow := ''hidden''\<rparr>)"

definition closeLightbox :: "state \<Rightarrow> state" where
  "closeLightbox s =
     s\<lparr>lightbox_hidden := True, body_overflow := '''', currentIndex := -1,
       image_loaded := False\<rparr>"

definition prevPhoto :: "date_api \<Rightarrow> state \<Rightarrow> state" where
  "prevPhoto D s =
     (if currentIndex s > 0 then
        preloadAdjacent (updateLightboxContent D (s\<lparr>currentIndex := currentIndex s - 1\<rparr>))
      else s)"

definition nextPhoto :: "date_api \<Rightarrow> state \<Rightarrow> state" where
  "nextPhoto D s =
     (if currentIndex s < int (length (photos s)) - 1 then
        preloadAdjacent (updateLightboxContent D (s\<lparr>currentIndex := currentIndex s + 1\<rparr>))
      else s)"

subsection \<open>Touch gestures\<close>

definition handleTouchStart :: "state \<Rightarrow> int \<Rightarrow> state" where
  "handleTouchStart s screenX = s\<lparr>touchStartX := screenX\<rparr>"

definition handleSwipe :: "date_api \<Rightarrow> state \<Rightarrow> state" where
  "handleSwipe D s =
     (let threshold = 50; diff = touchStartX s - touchEndX s in
      if \<bar>diff\<bar> > threshold then (if diff > 0 then nextPhoto D s else prevPhoto D s)
      else s)"

definition handleTouchEnd :: "date_api \<Rightarrow> state \<Rightarrow> int \<Rightarrow> state" where
  "handleTouchEnd D s screenX = handleSwipe D (s\<lparr>touchEndX := screenX\<rparr>)"

subsection \<open>Event listeners\<close>

text \<open>
  One constructor per listener the script registers. \<open>ItemClick k\<close> and
  \<open>ItemKeydown k key\<close> are a click and a key press on the \<open>k\<close>-th child of the gallery
  element (only children built by \<open>createGalleryItem\<close> carry listeners, and each calls
  \<open>openLightbox\<close> with the index it was built with); \<open>LightboxClick onBackground\<close> is a
  click inside the lightbox, \<open>onBackground\<close> telling whether its target is the lightbox
  element itself; \<open>Keydown\<close> is the listener on the document; \<open>ImageLoad\<close> is the
  \<open>onload\<close> handler of the viewer image.
\<close>

datatype event =
    ItemClick nat
  | ItemKeydown nat string
  | CloseClick
  | PrevClick
  | NextClick
  | LightboxClick bool
  | Keydown string
  | TouchStart int
  | TouchEnd int
  | ImageLoad

definition itemAt :: "state \<Rightarrow> nat \<Rightarrow> nat option" where
  "itemAt s k =
     (if k < length (gallery s) then
        (case gallery s ! k of
           GalleryItem index _ _ \<Rightarrow> Some index
         | EmptyStateDiv _ \<Rightarrow> None)
      else None)"

definition documentKeydown :: "date_api \<Rightarrow> state \<Rightarrow> string \<Rightarrow> state" where
  "documentKeydown D s key =
     (if lightbox_hidden s then s
      else if key = ''Escape'' then closeLightbox s
      else if key = ''ArrowLeft'' then prevPhoto D s
      else if key = ''ArrowRight'' then nextPhoto D s
      else s)"

definition itemKeydown :: "date_api \<Rightarrow> state \<Rightarrow> nat \<Rightarrow> string \<Rightarrow> state" where
  "itemKeydown D s index key =
     (if key = ''Enter'' \<or> key = '' '' then openLightbox D s (int index) else s)"

text \<open>
  A key press on a thumbnail is handled by the thumbnail's listener and then, since the
  listener does not stop propagation, by the listener on the document.
\<close>

fun handle :: "date_api \<Rightarrow> state \<Rightarrow> event \<Rightarrow> state" where
  "handle D s (ItemClick k) =
     (case itemAt s k of Some index \<Rightarrow> openLightbox D s (int index) | None \<Rightarrow> s)"
| "handle D s (ItemKeydown k key) =
     (case itemAt s k of
        Some index \<Rightarrow> documentKeydown D (itemKeydown D s index key) key
      | None \<Rightarrow> documentKeydown D s key)"
| "handle D s CloseClick = closeLightbox s"
| "handle D s PrevClick = prevPhoto D s"
| "handle D s NextClick = nextPhoto D s"
| "handle D s (LightboxClick onBackground) = (if onBackground then closeLightbox s else s)"
| "handle D s (Keydown key) = documentKeydown D s key"
| "handle D s (TouchStart screenX) = handleTouchStart s screenX"
| "handle D s (TouchEnd screenX) = handleTouchEnd D s screenX"
| "handle D s ImageLoad = (if image_onload s then s\<lparr>image_loaded := True\<rparr> else s)"

fun run :: "date_api \<Rightarrow> state \<Rightarrow> event list \<Rightarrow> state" where
  "run D s [] = s"
| "run D s (e # es) = run D (handle D s e) es"

subsection \<open>Loading the manifest\<close>

text \<open>
  The outcome of fetching and decoding \<open>manifest.json\<close>: the fetch rejects, the response
  is not ok, the body is not JSON, or there is a manifest whose \<open>photos\<close> field is absent
  (\<open>None\<close>) or a list of entries.
\<close>

datatype fetch_result =
    FetchRejected
  | ResponseNotOk
  | JsonRejected
  | Manifest "photo list option"

text \<open>
  The comparator of the script, \<open>new Date(b.dateCaptured) - new Date(a.dateCaptured)\<close>;
  \<open>None\<close> is NaN, the difference as soon as one of the two dates is invalid.
\<close>

definition compareDates :: "date_api \<Rightarrow> photo \<Rightarrow> photo \<Rightarrow> int option" where
  "compareDates D a b =
     (case D (dateCaptured b) of
        None \<Rightarrow> None
      | Some db \<Rightarrow>
          (case D (dateCaptured a) of
             None \<Rightarrow> None
           | Some da \<Rightarrow> Some (getTime db - getTime da)))"

text \<open>
  The built-in \<open>Array.prototype.sort\<close> is part of the JavaScript runtime. The language
  standard (since ECMAScript 2019) requires it to be stable and to read a NaN from the
  comparator as \<open>0\<close>; it is modelled by a stable insertion sort that moves an element
  behind another one only when the comparator says \<open>> 0\<close>. When every date parses the
  comparator is consistent and the result is the one every conforming engine returns
  (a stable sort has a single result). When some date does not parse the comparator is
  not consistent, the standard leaves the order to the engine, and the model's order
  stands for the engine's only on inputs where the two are known to agree, such as a
  list that every comparison of neighbours reports as already in order.
\<close>

definition sortCompare :: "('a \<Rightarrow> 'a \<Rightarrow> int option) \<Rightarrow> 'a \<Rightarrow> 'a \<Rightarrow> int" where
  "sortCompare comparefn x y = (case comparefn x y of None \<Rightarrow> 0 | Some v \<Rightarrow> v)"

fun sortInsert :: "('a \<Rightarrow> 'a \<Rightarrow> int option) \<Rightarrow> 'a \<Rightarrow> 'a list \<Rightarrow> 'a list" where
  "sortInsert comparefn x [] = [x]"
| "sortInsert comparefn x (y # ys) =
     (if sortCompare comparefn x y > 0 then y # sortInsert comparefn x ys else x # y # ys)"

definition arraySort :: "('a \<Rightarrow> 'a \<Rightarrow> int option) \<Rightarrow> 'a list \<Rightarrow> 'a list" where
  "arraySort comparefn xs = foldr (sortInsert comparefn) xs []"

definition loadFailed :: "state \<Rightarrow> state" where
  "loadFailed s =
     s\<lparr>console := console s @ [''Error loading photos:''],
       gallery := [EmptyStateDiv ''Failed to load photos''],
       loading_hidden := True\<rparr>"

definition init :: "date_api \<Rightarrow> fetch_result \<Rightarrow> state \<Rightarrow> state" where
  "init D r s =
     (case r of
        Manifest m \<Rightarrow>
          (renderGallery D
             (s\<lparr>photos := arraySort (compareDates D) (case m of None \<Rightarrow> [] | Some ps \<Rightarrow> ps)\<rparr>))
            \<lparr>loading_hidden := True\<rparr>
      | _ \<Rightarrow> loadFailed s)"

subsection \<open>The viewer state and the start of the script\<close>

datatype viewer = Closed | OpenAt int

definition viewer_state :: "state \<Rightarrow> viewer" where
  "viewer_state s = (if currentIndex s = -1 then Closed else OpenAt (currentIndex s))"

definition isItem :: "gallery_child \<Rightarrow> bool" where
  "isItem c = (case c of GalleryItem _ _ _ \<Rightarrow> True | EmptyStateDiv _ \<Rightarrow> False)"

text \<open>
  The state when the top-level code of the script has run: the four variables hold their
  initial values and no thumbnail has been built. What the page's markup gives the other
  DOM properties is left open.
\<close>

definition script_start :: "state \<Rightarrow> bool" where
  "script_start s \<longleftrightarrow>
     photos s = [] \<and> currentIndex s = -1 \<and> touchStartX s = 0 \<and> touchEndX s = 0 \<and>
     \<not> list_ex isItem (gallery s) \<and> \<not> image_onload s \<and> preloaded s = [] \<and> console s = []"

text \<open>
  A session: events before the manifest has arrived, the arrival of the manifest (the
  rest of \<open>init\<close>, which runs once), and events after it.
\<close>

definition session :: "date_api \<Rightarrow> state \<Rightarrow> event list \<Rightarrow> fetch_result \<Rightarrow> event list \<Rightarrow> state" where
  "session D s0 before r after = run D (init D r (run D s0 before)) after"

definition prevEnabled :: "state \<Rightarrow> bool" where
  "prevEnabled s \<longleftrightarrow> prev_visibility s = ''visible''"

definition nextEnabled :: "state \<Rightarrow> bool" where
  "nextEnabled s \<longleftrightarrow> next_visibility s = ''visible''"

definition catalogSize :: "state \<Rightarrow> int" where
  "catalogSize s = int (length (photos s))"

subsection \<open>Predicates on states\<close>

text \<open>The time value the comparator reads from a photo whose date parses.\<close>

definition timeOf :: "date_api \<Rightarrow> photo \<Rightarrow> int" where
  "timeOf D p = (case D (dateCaptured p) of None \<Rightarrow> 0 | Some d \<Rightarrow> getTime d)"

text \<open>
  The data model's reading of the viewer state: \<open>OpenAt i\<close> is well formed when
  \<open>0 \<le> i < n\<close>, for a catalog of \<open>n\<close> photos.
\<close>

fun validViewer :: "viewer \<Rightarrow> int \<Rightarrow> bool" where
  "validViewer Closed n = True"
| "validViewer (OpenAt i) n = (0 \<le> i \<and> i < n)"

text \<open>Every thumbnail of the gallery carries an index of the catalog.\<close>

fun itemBound :: "nat \<Rightarrow> gallery_child \<Rightarrow> bool" where
  "itemBound n (EmptyStateDiv _) = True"
| "itemBound n (GalleryItem index _ _) = (index < n)"

definition itemsOk :: "state \<Rightarrow> bool" where
  "itemsOk s \<longleftrightarrow>
     list_all (itemBound (length (photos s))) (gallery s)"

text \<open>The visibility rule of the two navigation controls, at the current index.\<close>

definition affordancesOk :: "state \<Rightarrow> bool" where
  "affordancesOk s \<longleftrightarrow>
     (prevEnabled s \<longleftrightarrow> currentIndex s > 0) \<and>
     (nextEnabled s \<longleftrightarrow> currentIndex s < catalogSize s - 1)"

text \<open>
  The invariant of the event loop, and the stronger one that holds until the manifest
  has arrived (no catalog, no thumbnail, viewer closed).
\<close>

definition viewerInv :: "state \<Rightarrow> bool" where
  "viewerInv s \<longleftrightarrow>
     validViewer (viewer_state s) (catalogSize s) \<and> itemsOk s \<and>
     (currentIndex s \<noteq> -1 \<longrightarrow> affordancesOk s)"

definition preManifest :: "state \<Rightarrow> bool" where
  "preManifest s \<longleftrightarrow> photos s = [] \<and> currentIndex s = -1 \<and> \<not> list_ex isItem (gallery s)"

subsection \<open>A concrete page, for evaluating the model\<close>

definition exampleDates :: date_api where
  "exampleDates d =
     (if d = ''2024-01-01'' then
        Some \<lparr>getTime = 1704067200000, getMonth = 0, getDate = 1, getFullYear = 2024\<rparr>
      else if d = ''2023-01-01'' then
        Some \<lparr>getTime = 1672531200000, getMonth = 0, getDate = 1, getFullYear = 2023\<rparr>
      else None)"

definition mkPhoto :: "string \<Rightarrow> string \<Rightarrow> photo" where
  "mkPhoto name d = \<lparr>filename = name, width = 4, height = 3, dateCaptured = d\<rparr>"

definition freshPage :: state where
  "freshPage =
     \<lparr>photos = [], currentIndex = -1, touchStartX = 0, touchEndX = 0, gallery = [],
      loading_hidden = False, lightbox_hidden = True, body_overflow = [],
      image_src = [], image_alt = [], image_loaded = False, image_onload = False,
      caption = [], prev_visibility = [], next_visibility = [], preloaded = [],
      console = []\<rparr>"

definition fivePhotos :: "photo list" where
  "fivePhotos =
     [mkPhoto ''a.jpg'' ''2024-01-01'', mkPhoto ''b.jpg'' ''2024-01-01'',
      mkPhoto ''c.jpg'' ''2024-01-01'', mkPhoto ''d.jpg'' ''2023-01-01'',
      mkPhoto ''e.jpg'' ''2023-01-01'']"

definition fivePage :: state where
  "fivePage = init exampleDates (Manifest (Some fivePhotos)) freshPage"

section \<open>Auxiliary facts\<close>

lemmas lightbox_defs =
  nextPhoto_def prevPhoto_def openLightbox_def closeLightbox_def preloadAdjacent_def
  updateLightboxContent_def preloadTargets_def preloadIndexes_def fullUrl_def
  viewer_state_def catalogSize_def prevEnabled_def nextEnabled_def Let_def

lemmas inv_defs = viewerInv_def itemsOk_def affordancesOk_def

lemmas eval_defs =
  lightbox_defs init_def renderGallery_def arraySort_def sortCompare_def compareDates_def
  exampleDates_def fivePhotos_def mkPhoto_def freshPage_def fivePage_def createGalleryItem_def
  documentKeydown_def itemKeydown_def itemAt_def handleTouchStart_def handleTouchEnd_def
  handleSwipe_def session_def script_start_def isItem_def timeOf_def affordancesOk_def
  loadFailed_def

subsection \<open>The built-in sort on parseable dates\<close>

text \<open>
  When every date parses, the comparator orders photos by decreasing time value, and the
  insertion sort driven by it is the library's stable sort by the key \<open>- timeOf\<close>.
\<close>

lemma sortInsert_insort_key:
  assumes "D (dateCaptured x) \<noteq> None" and "\<forall>y \<in> set ys. D (dateCaptured y) \<noteq> None"
  shows "sortInsert (compareDates D) x ys = insort_key (\<lambda>p. - timeOf D p) x ys"
  using assms
  by (induction ys) (auto simp: sortCompare_def compareDates_def timeOf_def)

lemma arraySort_sort_key:
  assumes "\<forall>p \<in> set ps. D (dateCaptured p) \<noteq> None"
  shows "arraySort (compareDates D) ps = sort_key (\<lambda>p. - timeOf D p) ps"
  using assms
proof (induction ps)
  case Nil
  then show ?case by (simp add: arraySort_def)
next
  case (Cons p ps)
  then have "arraySort (compareDates D) ps = sort_key (\<lambda>p. - timeOf D p) ps"
    by simp
  moreover have "\<forall>y \<in> set (sort_key (\<lambda>p. - timeOf D p) ps). D (dateCaptured y) \<noteq> None"
    using Cons.prems by simp
  ultimately show ?case
    using Cons.prems sortInsert_insort_key [of D p "sort_key (\<lambda>p. - timeOf D p) ps"]
    by (simp add: arraySort_def)
qed

lemma photos_init_Manifest:
  "photos (init D (Manifest (Some ps)) s) = arraySort (compareDates D) ps"
  by (simp add: init_def renderGallery_def)

lemma length_sortInsert: "length (sortInsert c x ys) = Suc (length ys)"
  by (induction ys) simp_all

lemma length_arraySort: "length (arraySort c xs) = length xs"
  by (induction xs) (simp_all add: arraySort_def length_sortInsert)

subsection \<open>The invariant is kept by every listener\<close>

lemma itemAt_bound:
  assumes "itemsOk s" and "itemAt s k = Some index"
  shows "int index < catalogSize s"
proof -
  from assms(2) have k: "k < length (gallery s)"
    by (simp add: itemAt_def split: if_splits)
  with assms(1) have "itemBound (length (photos s)) (gallery s ! k)"
    by (simp add: itemsOk_def list_all_length)
  with assms(2) k show ?thesis
    by (auto simp: itemAt_def catalogSize_def split: gallery_child.splits)
qed

lemma openLightbox_inv:
  assumes "viewerInv s" and "0 \<le> i" and "i < catalogSize s"
  shows "viewerInv (openLightbox D s i)"
  using assms by (simp add: inv_defs lightbox_defs)

lemma closeLightbox_inv: "viewerInv s \<Longrightarrow> viewerInv (closeLightbox s)"
  by (simp add: inv_defs lightbox_defs)

lemma nextPhoto_inv: "viewerInv s \<Longrightarrow> viewerInv (nextPhoto D s)"
  by (auto simp: inv_defs lightbox_defs split: if_splits)

lemma prevPhoto_inv: "viewerInv s \<Longrightarrow> viewerInv (prevPhoto D s)"
  by (auto simp: inv_defs lightbox_defs split: if_splits)

lemma documentKeydown_inv: "viewerInv s \<Longrightarrow> viewerInv (documentKeydown D s key)"
  by (simp add: documentKeydown_def closeLightbox_inv nextPhoto_inv prevPhoto_inv)

lemma touch_inv:
  "viewerInv s \<Longrightarrow> viewerInv (handleTouchStart s x)"
  "viewerInv s \<Longrightarrow> viewerInv (handleTouchEnd D s x)"
proof -
  have frame: "viewerInv (t\<lparr>touchStartX := x\<rparr>) = viewerInv t"
    "viewerInv (t\<lparr>touchEndX := x\<rparr>) = viewerInv t" for t
    by (simp_all add: inv_defs viewer_state_def catalogSize_def prevEnabled_def nextEnabled_def)
  show "viewerInv s \<Longrightarrow> viewerInv (handleTouchStart s x)"
    by (simp add: handleTouchStart_def frame)
  show "viewerInv s \<Longrightarrow> viewerInv (handleTouchEnd D s x)"
    by (simp add: handleTouchEnd_def handleSwipe_def Let_def frame nextPhoto_inv prevPhoto_inv)
qed

lemma handle_inv:
  assumes "viewerInv s"
  shows "viewerInv (handle D s e)"
proof (cases e)
  case (ItemClick k)
  then show ?thesis
    using assms itemAt_bound [of s k]
    by (auto simp: openLightbox_inv viewerInv_def [of s] split: option.splits)
next
  case (ItemKeydown k key)
  then show ?thesis
    using assms itemAt_bound [of s k]
    by (auto simp: itemKeydown_def openLightbox_inv documentKeydown_inv viewerInv_def [of s]
        split: option.splits)
next
  case ImageLoad
  then show ?thesis
    using assms
    by (auto simp: inv_defs viewer_state_def catalogSize_def prevEnabled_def nextEnabled_def
        split: if_splits)
qed (use assms in \<open>simp_all add: closeLightbox_inv nextPhoto_inv prevPhoto_inv
       documentKeydown_inv touch_inv\<close>)

lemma run_inv: "viewerInv s \<Longrightarrow> viewerInv (run D s es)"
  by (induction es arbitrary: s) (simp_all add: handle_inv)

subsection \<open>Before the manifest has arrived\<close>

lemma itemAt_preManifest: "preManifest s \<Longrightarrow> itemAt s k = None"
  by (auto simp: preManifest_def itemAt_def list_ex_length isItem_def split: gallery_child.splits)

lemma nav_preManifest:
  assumes "preManifest s"
  shows "nextPhoto D s = s" and "prevPhoto D s = s" and "preManifest (closeLightbox s)"
  using assms by (simp_all add: preManifest_def nextPhoto_def prevPhoto_def closeLightbox_def)

lemma handle_preManifest:
  assumes "preManifest s"
  shows "preManifest (handle D s e)"
proof (cases e)
  case (TouchStart x)
  then show ?thesis
    using assms by (simp add: preManifest_def handleTouchStart_def)
next
  case (TouchEnd x)
  have "preManifest (s\<lparr>touchEndX := x\<rparr>)"
    using assms by (simp add: preManifest_def)
  then show ?thesis
    using TouchEnd by (simp add: handleTouchEnd_def handleSwipe_def Let_def nav_preManifest)
next
  case ImageLoad
  then show ?thesis
    using assms by (simp add: preManifest_def)
qed (use assms in \<open>simp_all add: itemAt_preManifest documentKeydown_def nav_preManifest\<close>)

lemma run_preManifest: "preManifest s \<Longrightarrow> preManifest (run D s es)"
  by (induction es arbitrary: s) (simp_all add: handle_preManifest)

lemma handle_stays_hidden:
  assumes "preManifest s" and "lightbox_hidden s"
  shows "lightbox_hidden (handle D s e)"
proof (cases e)
  case (TouchEnd x)
  have "preManifest (s\<lparr>touchEndX := x\<rparr>)"
    using assms by (simp add: preManifest_def)
  then show ?thesis
    using TouchEnd assms(2)
    by (simp add: handleTouchEnd_def handleSwipe_def Let_def nav_preManifest)
qed (use assms in \<open>simp_all add: itemAt_preManifest documentKeydown_def nav_preManifest
       closeLightbox_def handleTouchStart_def\<close>)

lemma run_stays_hidden:
  "preManifest s \<Longrightarrow> lightbox_hidden s \<Longrightarrow> lightbox_hidden (run D s es)"
  by (induction es arbitrary: s) (simp_all add: handle_preManifest handle_stays_hidden)

lemma script_start_preManifest: "script_start s \<Longrightarrow> preManifest s"
  by (simp add: script_start_def preManifest_def)

lemma no_items_bound: "\<not> list_ex isItem g \<Longrightarrow> list_all (itemBound n) g"
proof (induction g)
  case Nil
  then show ?case by simp
next
  case (Cons c g)
  then show ?case by (cases c) (simp_all add: isItem_def)
qed

lemma preManifest_inv: "preManifest s \<Longrightarrow> viewerInv s"
  by (simp add: preManifest_def inv_defs viewer_state_def no_items_bound)

subsection \<open>The arrival of the manifest\<close>

lemma itemsOk_renderGallery: "itemsOk (renderGallery D s)"
  by (auto simp: itemsOk_def renderGallery_def createGalleryItem_def list_all_iff
      in_set_enumerate_eq)

lemma init_inv:
  assumes "preManifest s"
  shows "viewerInv (init D r s)"
proof (cases r)
  case (Manifest m)
  let ?t = "s\<lparr>photos := arraySort (compareDates D) (case m of None \<Rightarrow> [] | Some ps \<Rightarrow> ps)\<rparr>"
  have "itemsOk (renderGallery D ?t)"
    by (rule itemsOk_renderGallery)
  moreover have "currentIndex (renderGallery D ?t) = -1"
    using assms by (simp add: renderGallery_def preManifest_def)
  ultimately show ?thesis
    using Manifest
    by (simp add: init_def viewerInv_def viewer_state_def itemsOk_def)
qed (use assms in \<open>simp_all add: init_def loadFailed_def preManifest_def inv_defs
       viewer_state_def\<close>)

lemma session_inv:
  assumes "script_start s0"
  shows "viewerInv (run D s0 before)" and "viewerInv (session D s0 before r after)"
proof -
  have pre: "preManifest (run D s0 before)"
    using assms by (simp add: script_start_preManifest run_preManifest)
  then show "viewerInv (run D s0 before)"
    by (rule preManifest_inv)
  show "viewerInv (session D s0 before r after)"
    using pre by (simp add: session_def init_inv run_inv)
qed

lemma console_handle: "console (handle D s e) = console s"
  by (cases e)
    (simp_all add: lightbox_defs documentKeydown_def itemKeydown_def handleTouchStart_def
      handleTouchEnd_def handleSwipe_def split: option.splits)

lemma console_run: "console (run D s es) = console s"
  by (induction es arbitrary: s) (simp_all add: console_handle)

section \<open>Navigation\<close>

text \<open>
  Claim C1. From \<open>OpenAt i\<close> with \<open>0 \<le> i < size\<close>: when \<open>i < size - 1\<close>, \<open>nextPhoto\<close>
  moves to \<open>OpenAt (i + 1)\<close> and runs the content update and the preload, which are the
  side effects of \<open>openLightbox (i + 1)\<close> (opening differs only in also showing the
  lightbox and locking the page scroll); the viewer shows photo \<open>i + 1\<close>, the controls
  follow the visibility rule, and the in-range neighbours \<open>i\<close> and \<open>i + 2\<close> are
  preloaded. When \<open>i = size - 1\<close>, \<open>nextPhoto\<close> returns the state as it was: nothing
  is updated and nothing is preloaded.
\<close>

theorem nextPhoto_transition:
  assumes "viewer_state s = OpenAt i" and "0 \<le> i" and "i < catalogSize s"
  shows "(i < catalogSize s - 1 \<longrightarrow>
            viewer_state (nextPhoto D s) = OpenAt (i + 1) \<and>
            nextPhoto D s =
              preloadAdjacent (updateLightboxContent D (s\<lparr>currentIndex := i + 1\<rparr>)) \<and>
            openLightbox D s (i + 1) =
              (nextPhoto D s)\<lparr>lightbox_hidden := False, body_overflow := ''hidden''\<rparr> \<and>
            image_src (nextPhoto D s) = fullUrl s (i + 1) \<and>
            caption (nextPhoto D s) = formatDate D (dateCaptured (photos s ! nat (i + 1))) \<and>
            (prevEnabled (nextPhoto D s) \<longleftrightarrow> i + 1 > 0) \<and>
            (nextEnabled (nextPhoto D s) \<longleftrightarrow> i + 1 < catalogSize s - 1) \<and>
            preloaded (nextPhoto D s) =
              preloaded s @ map (fullUrl s) (filter (\<lambda>j. j < catalogSize s) [i, i + 2])) \<and>
         (i = catalogSize s - 1 \<longrightarrow> nextPhoto D s = s)"
proof -
  from assms(1) have ci: "currentIndex s = i"
    by (simp add: viewer_state_def split: if_splits)
  have "nat (2 + i) = nat (i + 2)" by (simp add: add.commute)
  then show ?thesis
    using ci assms(2,3) by (simp add: lightbox_defs)
qed

theorem nextPhoto_transition_witness:
  "viewer_state (openLightbox exampleDates fivePage 2) = OpenAt 2 \<and>
   catalogSize (openLightbox exampleDates fivePage 2) = 5 \<and>
   viewer_state (nextPhoto exampleDates (openLightbox exampleDates fivePage 2)) = OpenAt 3 \<and>
   image_src (nextPhoto exampleDates (openLightbox exampleDates fivePage 2)) =
     ''images/full/d.jpg'' \<and>
   preloaded (nextPhoto exampleDates (openLightbox exampleDates fivePage 2)) =
     [''images/full/b.jpg'', ''images/full/d.jpg'', ''images/full/c.jpg'',
      ''images/full/e.jpg''] \<and>
   viewer_state (openLightbox exampleDates fivePage 4) = OpenAt 4 \<and>
   nextPhoto exampleDates (openLightbox exampleDates fivePage 4) =
     openLightbox exampleDates fivePage 4"
  using nextPhoto_transition [of "openLightbox exampleDates fivePage 2" 2 exampleDates]
    nextPhoto_transition [of "openLightbox exampleDates fivePage 4" 4 exampleDates]
  by (simp add: eval_defs)

text \<open>
  Claim C2. From \<open>OpenAt i\<close> with \<open>0 \<le> i < size\<close>: when \<open>i > 0\<close>, \<open>prevPhoto\<close> moves
  to \<open>OpenAt (i - 1)\<close> and runs the content update and the preload; when \<open>i = 0\<close> it
  returns the state as it was, so the index and both controls are unchanged.
\<close>

theorem prevPhoto_transition:
  assumes "viewer_state s = OpenAt i" and "0 \<le> i" and "i < catalogSize s"
  shows "(i > 0 \<longrightarrow>
            viewer_state (prevPhoto D s) = OpenAt (i - 1) \<and>
            prevPhoto D s =
              preloadAdjacent (updateLightboxContent D (s\<lparr>currentIndex := i - 1\<rparr>)) \<and>
            image_src (prevPhoto D s) = fullUrl s (i - 1) \<and>
            caption (prevPhoto D s) = formatDate D (dateCaptured (photos s ! nat (i - 1))) \<and>
            (prevEnabled (prevPhoto D s) \<longleftrightarrow> i - 1 > 0) \<and>
            nextEnabled (prevPhoto D s) \<and>
            preloaded (prevPhoto D s) =
              preloaded s @ map (fullUrl s) (filter (\<lambda>j. 0 \<le> j) [i - 2, i])) \<and>
         (i = 0 \<longrightarrow> prevPhoto D s = s)"
proof -
  from assms(1) have ci: "currentIndex s = i"
    by (simp add: viewer_state_def split: if_splits)
  show ?thesis
    using ci assms(2,3) by (simp add: lightbox_defs)
qed

theorem prevPhoto_transition_witness:
  "viewer_state (openLightbox exampleDates fivePage 2) = OpenAt 2 \<and>
   catalogSize (openLightbox exampleDates fivePage 2) = 5 \<and>
   viewer_state (prevPhoto exampleDates (openLightbox exampleDates fivePage 2)) = OpenAt 1 \<and>
   image_src (prevPhoto exampleDates (openLightbox exampleDates fivePage 2)) =
     ''images/full/b.jpg'' \<and>
   preloaded (prevPhoto exampleDates (openLightbox exampleDates fivePage 2)) =
     [''images/full/b.jpg'', ''images/full/d.jpg'', ''images/full/a.jpg'',
      ''images/full/c.jpg''] \<and>
   viewer_state (openLightbox exampleDates fivePage 0) = OpenAt 0 \<and>
   prevPhoto exampleDates (openLightbox exampleDates fivePage 0) =
     openLightbox exampleDates fivePage 0"
  using prevPhoto_transition [of "openLightbox exampleDates fivePage 2" 2 exampleDates]
    prevPhoto_transition [of "openLightbox exampleDates fivePage 0" 0 exampleDates]
  by (simp add: eval_defs)

text \<open>
  Claim C3. In every state of a session (before or after the manifest has arrived) in
  which the viewer is \<open>OpenAt i\<close>, the previous control is visible exactly when
  \<open>i > 0\<close> and the next control exactly when \<open>i < size - 1\<close>. The pair is recomputed
  by every transition into an open state: from any state \<open>t\<close>, whatever the controls
  were, they follow the rule after \<open>openLightbox\<close> at a valid index and after a
  \<open>nextPhoto\<close> or \<open>prevPhoto\<close> that changes the index to a valid one.
\<close>

theorem affordance_invariant:
  assumes "script_start s0"
  shows "(\<forall>s \<in> {run D s0 before, session D s0 before r after}.
            \<forall>i. viewer_state s = OpenAt i \<longrightarrow>
              (prevEnabled s \<longleftrightarrow> i > 0) \<and> (nextEnabled s \<longleftrightarrow> i < catalogSize s - 1)) \<and>
         (0 \<le> i \<and> i < catalogSize t \<longrightarrow> affordancesOk (openLightbox D t i)) \<and>
         (0 \<le> currentIndex t + 1 \<and> currentIndex t < catalogSize t - 1 \<longrightarrow>
            affordancesOk (nextPhoto D t)) \<and>
         (0 < currentIndex t \<and> currentIndex t \<le> catalogSize t \<longrightarrow>
            affordancesOk (prevPhoto D t))"
proof -
  have "(prevEnabled s \<longleftrightarrow> i > 0) \<and> (nextEnabled s \<longleftrightarrow> i < catalogSize s - 1)"
    if "viewerInv s" and "viewer_state s = OpenAt i" for s i
    using that by (auto simp: viewerInv_def affordancesOk_def viewer_state_def split: if_splits)
  then have "\<forall>s \<in> {run D s0 before, session D s0 before r after}.
            \<forall>i. viewer_state s = OpenAt i \<longrightarrow>
              (prevEnabled s \<longleftrightarrow> i > 0) \<and> (nextEnabled s \<longleftrightarrow> i < catalogSize s - 1)"
    using session_inv [OF assms] by blast
  moreover have "0 \<le> i \<and> i < catalogSize t \<longrightarrow> affordancesOk (openLightbox D t i)"
    by (simp add: affordancesOk_def lightbox_defs)
  moreover have "0 \<le> currentIndex t + 1 \<and> currentIndex t < catalogSize t - 1 \<longrightarrow>
            affordancesOk (nextPhoto D t)"
    by (simp add: affordancesOk_def lightbox_defs)
  moreover have "0 < currentIndex t \<and> currentIndex t \<le> catalogSize t \<longrightarrow>
            affordancesOk (prevPhoto D t)"
    by (simp add: affordancesOk_def lightbox_defs)
  ultimately show ?thesis by blast
qed

theorem affordance_invariant_witness:
  "script_start freshPage \<and>
   viewer_state (session exampleDates freshPage [] (Manifest (Some fivePhotos))
     [ItemClick 3, NextClick]) = OpenAt 4 \<and>
   prevEnabled (session exampleDates freshPage [] (Manifest (Some fivePhotos))
     [ItemClick 3, NextClick]) \<and>
   \<not> nextEnabled (session exampleDates freshPage [] (Manifest (Some fivePhotos))
     [ItemClick 3, NextClick]) \<and>
   affordancesOk (openLightbox exampleDates fivePage 0) \<and>
   \<not> prevEnabled (openLightbox exampleDates fivePage 0) \<and>
   nextEnabled (openLightbox exampleDates fivePage 0)"
  using affordance_invariant [of freshPage exampleDates "[]" "Manifest (Some fivePhotos)"
      "[ItemClick 3, NextClick]" 0 fivePage]
  by (simp add: eval_defs)

section \<open>Closing the viewer\<close>

text \<open>
  Claim C4, as amended. From any state \<open>t\<close>, \<open>closeLightbox\<close> leaves the viewer
  \<open>Closed\<close>, hides the lightbox, restores the page scroll (the overflow style is
  cleared) and removes the class \<open>loaded\<close> from the viewer image; it does not touch the
  image's \<open>src\<close>. So for a valid index \<open>i\<close>, opening at \<open>i\<close> and closing ends in
  \<open>Closed\<close> with the image still referring to the full-size resource of photo \<open>i\<close>.
\<close>

theorem closeLightbox_after_open:
  "viewer_state (closeLightbox t) = Closed \<and>
   lightbox_hidden (closeLightbox t) \<and>
   body_overflow (closeLightbox t) = [] \<and>
   \<not> image_loaded (closeLightbox t) \<and>
   image_src (closeLightbox t) = image_src t \<and>
   (0 \<le> i \<and> i < catalogSize s \<longrightarrow>
      viewer_state (openLightbox D s i) = OpenAt i \<and>
      viewer_state (closeLightbox (openLightbox D s i)) = Closed \<and>
      image_src (closeLightbox (openLightbox D s i)) = fullUrl s i)"
  by (simp add: lightbox_defs)

theorem closeLightbox_after_open_witness:
  "catalogSize fivePage = 5 \<and>
   viewer_state (openLightbox exampleDates fivePage 2) = OpenAt 2 \<and>
   viewer_state (closeLightbox (openLightbox exampleDates fivePage 2)) = Closed \<and>
   body_overflow (openLightbox exampleDates fivePage 2) = ''hidden'' \<and>
   body_overflow (closeLightbox (openLightbox exampleDates fivePage 2)) = []"
  using closeLightbox_after_open [of "openLightbox exampleDates fivePage 2" 2 fivePage
      exampleDates]
  by (simp add: eval_defs)

text \<open>
  The claim as stated says that closing releases the reference to the full-size image
  that was shown. On the five-photo page, after opening at index 2 and closing, the
  viewer image's \<open>src\<close> is still the full-size resource of that photo.
\<close>

theorem close_keeps_image_reference:
  "image_src (openLightbox exampleDates fivePage 2) = ''images/full/c.jpg'' \<and>
   image_src (closeLightbox (openLightbox exampleDates fivePage 2)) = ''images/full/c.jpg''"
  by (simp add: eval_defs)

section \<open>Preloading\<close>

text \<open>
  Claim C5. With the focal index \<open>currentIndex\<close> on a catalog of \<open>size\<close> photos,
  \<open>preloadAdjacent\<close> starts a fetch of the full-size resource of exactly the members of
  \<open>{i - 1, i + 1}\<close> that lie in \<open>[0, size)\<close>: never of \<open>i\<close> itself, never of an index
  at a distance other than 1, and of at most two resources.
\<close>

theorem preloadAdjacent_neighbours:
  "preloaded (preloadAdjacent s) = preloaded s @ map (fullUrl s) (preloadTargets s) \<and>
   set (preloadTargets s) =
     {currentIndex s - 1, currentIndex s + 1} \<inter> {j. 0 \<le> j \<and> j < catalogSize s} \<and>
   currentIndex s \<notin> set (preloadTargets s) \<and>
   (\<forall>j \<in> set (preloadTargets s). \<bar>j - currentIndex s\<bar> = 1) \<and>
   length (preloadTargets s) \<le> 2"
  by (auto simp: preloadAdjacent_def preloadTargets_def preloadIndexes_def catalogSize_def)

theorem preloadAdjacent_neighbours_witness:
  "preloadTargets (fivePage\<lparr>currentIndex := 2\<rparr>) = [1, 3] \<and>
   preloaded (preloadAdjacent (fivePage\<lparr>currentIndex := 2\<rparr>)) =
     [''images/full/b.jpg'', ''images/full/d.jpg''] \<and>
   preloaded (openLightbox exampleDates fivePage 2) =
     [''images/full/b.jpg'', ''images/full/d.jpg''] \<and>
   preloadTargets (fivePage\<lparr>currentIndex := 0\<rparr>) = [1] \<and>
   preloadTargets (fivePage\<lparr>currentIndex := 4\<rparr>) = [3]"
  using preloadAdjacent_neighbours [of "fivePage\<lparr>currentIndex := 2\<rparr>"]
  by (simp add: eval_defs)

section \<open>Swipe gestures\<close>

text \<open>
  Claim C6. For a gesture that starts at horizontal position \<open>a\<close> and ends at \<open>b\<close>:
  when \<open>|a - b| > 50\<close> the touch-end listener calls \<open>nextPhoto\<close> if \<open>a - b\<close> is
  positive and \<open>prevPhoto\<close> if it is negative; when \<open>|a - b|\<close> does not exceed 50 it
  calls neither, and only the two recorded positions have changed.
\<close>

theorem handleSwipe_classification:
  "(let s' = s\<lparr>touchStartX := a, touchEndX := b\<rparr>;
        g = handleTouchEnd D (handleTouchStart s a) b in
    (\<bar>a - b\<bar> > 50 \<and> a - b > 0 \<longrightarrow> g = nextPhoto D s') \<and>
    (\<bar>a - b\<bar> > 50 \<and> a - b < 0 \<longrightarrow> g = prevPhoto D s') \<and>
    (\<not> \<bar>a - b\<bar> > 50 \<longrightarrow> g = s'))"
  by (auto simp add: handleTouchEnd_def handleTouchStart_def handleSwipe_def Let_def)

theorem handleSwipe_classification_witness:
  "viewer_state (handleTouchEnd exampleDates
     (handleTouchStart (openLightbox exampleDates fivePage 2) 200) 140) = OpenAt 3 \<and>
   viewer_state (handleTouchEnd exampleDates
     (handleTouchStart (openLightbox exampleDates fivePage 2) 140) 200) = OpenAt 1 \<and>
   handleTouchEnd exampleDates (handleTouchStart (openLightbox exampleDates fivePage 2) 100) 120 =
     (openLightbox exampleDates fivePage 2)\<lparr>touchStartX := 100, touchEndX := 120\<rparr>"
  using handleSwipe_classification
      [where s = "openLightbox exampleDates fivePage 2" and a = 200 and b = 140 and D = exampleDates]
    handleSwipe_classification
      [where s = "openLightbox exampleDates fivePage 2" and a = 140 and b = 200 and D = exampleDates]
    handleSwipe_classification
      [where s = "openLightbox exampleDates fivePage 2" and a = 100 and b = 120 and D = exampleDates]
  by (simp add: eval_defs)

section \<open>Loading the catalog\<close>

text \<open>
  Claim C7, as amended. For a manifest whose entries all carry a date that parses, the
  catalog that \<open>init\<close> stores is the manifest's list reordered (same entries, same
  multiplicities), sorted by time value descending, and stable: for every time value,
  the entries with that value appear in the order they have in the manifest.
\<close>

theorem init_sorts_stably:
  assumes "\<forall>p \<in> set ps. D (dateCaptured p) \<noteq> None"
  shows "sorted_wrt (\<lambda>a b. timeOf D a \<ge> timeOf D b) (photos (init D (Manifest (Some ps)) s)) \<and>
         mset (photos (init D (Manifest (Some ps)) s)) = mset ps \<and>
         (\<forall>t. filter (\<lambda>p. timeOf D p = t) (photos (init D (Manifest (Some ps)) s)) =
              filter (\<lambda>p. timeOf D p = t) ps)"
proof -
  let ?f = "\<lambda>p. - timeOf D p"
  have eq: "photos (init D (Manifest (Some ps)) s) = sort_key ?f ps"
    using assms by (simp add: photos_init_Manifest arraySort_sort_key)
  have "sorted (map ?f (sort_key ?f ps))"
    by (rule sorted_sort_key)
  then have 1: "sorted_wrt (\<lambda>a b. timeOf D a \<ge> timeOf D b) (sort_key ?f ps)"
    by (simp add: sorted_map)
  have 2: "mset (sort_key ?f ps) = mset ps"
    by simp
  have 3: "filter (\<lambda>p. timeOf D p = t) (sort_key ?f ps) = filter (\<lambda>p. timeOf D p = t) ps" for t
    using sort_key_stable [of ?f "- t" ps] by simp
  show ?thesis
    using 1 2 3 by (simp add: eq)
qed

theorem init_sorts_stably_witness:
  "exampleDates ''2024-01-01'' \<noteq> None \<and> exampleDates ''2023-01-01'' \<noteq> None \<and>
   photos (init exampleDates (Manifest (Some
     [mkPhoto ''x.jpg'' ''2024-01-01'', mkPhoto ''y.jpg'' ''2024-01-01'',
      mkPhoto ''z.jpg'' ''2023-01-01''])) freshPage) =
     [mkPhoto ''x.jpg'' ''2024-01-01'', mkPhoto ''y.jpg'' ''2024-01-01'',
      mkPhoto ''z.jpg'' ''2023-01-01''] \<and>
   photos (init exampleDates (Manifest (Some
     [mkPhoto ''z.jpg'' ''2023-01-01'', mkPhoto ''x.jpg'' ''2024-01-01'',
      mkPhoto ''y.jpg'' ''2024-01-01''])) freshPage) =
     [mkPhoto ''x.jpg'' ''2024-01-01'', mkPhoto ''y.jpg'' ''2024-01-01'',
      mkPhoto ''z.jpg'' ''2023-01-01'']"
  using init_sorts_stably [of "[mkPhoto ''x.jpg'' ''2024-01-01'', mkPhoto ''y.jpg'' ''2024-01-01'',
      mkPhoto ''z.jpg'' ''2023-01-01'']" exampleDates freshPage]
    init_sorts_stably [of "[mkPhoto ''z.jpg'' ''2023-01-01'', mkPhoto ''x.jpg'' ''2024-01-01'',
      mkPhoto ''y.jpg'' ''2024-01-01'']" exampleDates freshPage]
  by (simp add: eval_defs)

text \<open>
  The claim as stated speaks of every manifest entry list, and \<open>init\<close> validates no
  entry. On the list of a photo of 2023, a photo whose date does not parse and a photo
  of 2024, in that order, every comparison with the middle entry is NaN and is read as
  \<open>0\<close>, the list counts as already in order, and the catalog keeps the photo of 2023
  ahead of the newer photo of 2024: it is not sorted by date descending.
\<close>

theorem init_unsorted_with_invalid_date:
  "exampleDates ''bad'' = None \<and>
   photos (init exampleDates (Manifest (Some
     [mkPhoto ''o.jpg'' ''2023-01-01'', mkPhoto ''n.jpg'' ''bad'',
      mkPhoto ''m.jpg'' ''2024-01-01''])) freshPage) =
     [mkPhoto ''o.jpg'' ''2023-01-01'', mkPhoto ''n.jpg'' ''bad'',
      mkPhoto ''m.jpg'' ''2024-01-01''] \<and>
   timeOf exampleDates (mkPhoto ''o.jpg'' ''2023-01-01'') <
     timeOf exampleDates (mkPhoto ''m.jpg'' ''2024-01-01'')"
  by (simp add: eval_defs)

text \<open>
  Claim C8. In every state of a session that starts when the script has run, whatever
  events arrive before and after the manifest and whatever the outcome of the load, the
  viewer is \<open>Closed\<close> or \<open>OpenAt i\<close> with \<open>0 \<le> i < size\<close>.
\<close>

theorem index_never_out_of_range:
  assumes "script_start s0"
  shows "validViewer (viewer_state (run D s0 before)) (catalogSize (run D s0 before)) \<and>
         validViewer (viewer_state (session D s0 before r after))
           (catalogSize (session D s0 before r after))"
  using session_inv [OF assms] by (simp add: viewerInv_def)

theorem index_never_out_of_range_witness:
  "script_start freshPage \<and>
   viewer_state (session exampleDates freshPage [NextClick] (Manifest (Some fivePhotos))
     [ItemClick 4, NextClick, Keydown ''ArrowRight'']) = OpenAt 4 \<and>
   catalogSize (session exampleDates freshPage [NextClick] (Manifest (Some fivePhotos))
     [ItemClick 4, NextClick, Keydown ''ArrowRight'']) = 5 \<and>
   viewer_state (session exampleDates freshPage [NextClick] (Manifest (Some fivePhotos))
     [PrevClick, NextClick, PrevClick, PrevClick]) = OpenAt 0"
  using index_never_out_of_range [of freshPage exampleDates "[NextClick]"
      "Manifest (Some fivePhotos)" "[ItemClick 4, NextClick, Keydown ''ArrowRight'']"]
  by (simp add: eval_defs)

text \<open>
  Claim C9. When the manifest has no \<open>photos\<close> field or an empty list, the load ends
  with an empty catalog of size 0 and logs no error; the gallery holds the empty-state
  element alone and no thumbnail; and whatever events follow, the viewer stays
  \<open>Closed\<close>, there is no thumbnail to activate, and a lightbox that was hidden when the
  script started is still hidden.
\<close>

theorem empty_manifest:
  assumes "script_start s0" and "m = None \<or> m = Some []"
  shows "photos (session D s0 before (Manifest m) []) = [] \<and>
         catalogSize (session D s0 before (Manifest m) []) = 0 \<and>
         gallery (session D s0 before (Manifest m) []) = [EmptyStateDiv ''No photos yet''] \<and>
         \<not> list_ex isItem (gallery (session D s0 before (Manifest m) [])) \<and>
         console (session D s0 before (Manifest m) []) = [] \<and>
         viewer_state (session D s0 before (Manifest m) after) = Closed \<and>
         itemAt (session D s0 before (Manifest m) after) k = None \<and>
         (lightbox_hidden s0 \<longrightarrow> lightbox_hidden (session D s0 before (Manifest m) after))"
proof -
  let ?s1 = "run D s0 before"
  let ?s2 = "init D (Manifest m) ?s1"
  have pre1: "preManifest ?s1"
    using assms(1) by (simp add: script_start_preManifest run_preManifest)
  have s2: "?s2 = ?s1\<lparr>photos := [], gallery := [EmptyStateDiv ''No photos yet''],
      loading_hidden := True\<rparr>"
    using assms(2) by (auto simp: init_def renderGallery_def arraySort_def)
  have pre2: "preManifest ?s2"
    using pre1 by (simp add: s2 preManifest_def isItem_def)
  have con: "console ?s2 = []"
    using assms(1) by (simp add: s2 console_run script_start_def)
  have "preManifest (run D ?s2 after)"
    using pre2 by (rule run_preManifest)
  moreover have "lightbox_hidden (run D ?s2 after)" if "lightbox_hidden s0"
  proof -
    have "lightbox_hidden ?s1"
      using assms(1) that by (simp add: script_start_preManifest run_stays_hidden)
    then have "lightbox_hidden ?s2" by (simp add: s2)
    with pre2 show ?thesis by (rule run_stays_hidden)
  qed
  ultimately show ?thesis
    using con itemAt_preManifest [of "run D ?s2 after" k]
    by (simp add: session_def s2 preManifest_def viewer_state_def catalogSize_def isItem_def)
qed

theorem empty_manifest_witness:
  "script_start freshPage \<and>
   gallery (session exampleDates freshPage [] (Manifest None) []) =
     [EmptyStateDiv ''No photos yet''] \<and>
   gallery (session exampleDates freshPage [] (Manifest (Some [])) []) =
     [EmptyStateDiv ''No photos yet''] \<and>
   viewer_state (session exampleDates freshPage [] (Manifest (Some []))
     [ItemClick 0, NextClick, Keydown ''Enter'']) = Closed \<and>
   lightbox_hidden (session exampleDates freshPage [] (Manifest (Some []))
     [ItemClick 0, NextClick, Keydown ''Enter''])"
  using empty_manifest [of freshPage "Some []" exampleDates "[]"
      "[ItemClick 0, NextClick, Keydown ''Enter'']" 0]
    empty_manifest [of freshPage None exampleDates "[]" "[]" 0]
  by (simp add: eval_defs)

section \<open>Next on a closed viewer\<close>

text \<open>
  Claim C10. On a non-empty catalog with the viewer \<open>Closed\<close> (\<open>currentIndex = -1\<close>),
  \<open>nextPhoto\<close> is not a no-op: it moves to \<open>OpenAt 0\<close> and updates the viewer content
  to the first photo, leaving the lightbox's \<open>hidden\<close> flag as it was. \<open>nextPhoto\<close>
  makes no check that the viewer is open, and neither do the listener of the next
  control and the swipe listener, which call it as they are; the key listener alone
  returns at once while the lightbox is hidden.
\<close>

theorem nextPhoto_from_closed:
  assumes "photos s \<noteq> []" and "viewer_state s = Closed"
  shows "nextPhoto D s \<noteq> s \<and>
         viewer_state (nextPhoto D s) = OpenAt 0 \<and>
         nextPhoto D s = preloadAdjacent (updateLightboxContent D (s\<lparr>currentIndex := 0\<rparr>)) \<and>
         image_src (nextPhoto D s) = fullUrl s 0 \<and>
         caption (nextPhoto D s) = formatDate D (dateCaptured (photos s ! 0)) \<and>
         lightbox_hidden (nextPhoto D s) = lightbox_hidden s \<and>
         handle D s NextClick = nextPhoto D s \<and>
         (a - b > 50 \<longrightarrow>
            handle D (handle D s (TouchStart a)) (TouchEnd b) =
              nextPhoto D (s\<lparr>touchStartX := a, touchEndX := b\<rparr>)) \<and>
         (lightbox_hidden s \<longrightarrow> handle D s (Keydown ''ArrowRight'') = s) \<and>
         (\<not> lightbox_hidden s \<longrightarrow> handle D s (Keydown ''ArrowRight'') = nextPhoto D s)"
proof -
  from assms(2) have ci: "currentIndex s = -1"
    by (simp add: viewer_state_def split: if_splits)
  from assms(1) have len: "0 < length (photos s)" by simp
  have changed: "currentIndex (nextPhoto D s) = 0"
    using ci len by (simp add: lightbox_defs)
  have "nextPhoto D s \<noteq> s"
    using changed ci by auto
  moreover have "handle D (handle D s (TouchStart a)) (TouchEnd b) =
      nextPhoto D (s\<lparr>touchStartX := a, touchEndX := b\<rparr>)" if "a - b > 50"
    using that by (simp add: handleTouchStart_def handleTouchEnd_def handleSwipe_def Let_def)
  ultimately show ?thesis
    using ci len by (simp add: lightbox_defs documentKeydown_def)
qed

theorem nextPhoto_from_closed_witness:
  "photos fivePage \<noteq> [] \<and> viewer_state fivePage = Closed \<and> lightbox_hidden fivePage \<and>
   viewer_state (nextPhoto exampleDates fivePage) = OpenAt 0 \<and>
   image_src (nextPhoto exampleDates fivePage) = ''images/full/a.jpg'' \<and>
   lightbox_hidden (nextPhoto exampleDates fivePage) \<and>
   handle exampleDates fivePage (Keydown ''ArrowRight'') = fivePage \<and>
   viewer_state (handle exampleDates fivePage NextClick) = OpenAt 0"
  using nextPhoto_from_closed [of fivePage exampleDates 200 140]
  by (simp add: eval_defs)

end
